theory Spec2Isabelle
  imports Main "HOL-Library.AList"
begin

section \<open>Go strings: the functions of package strings used by the program\<close>

text \<open>
  A Go string is a sequence of bytes; it is modelled as a \<^typ>\<open>string\<close> (a list of
  characters). The separator of every split and join in the program is the single byte
  \<open>;\<close>, so the separator is a character here.
\<close>

text \<open>
  \<open>strings.Split(s, sep)\<close>: the substrings between the separators. A string without
  separator, the empty string included, gives a list of one element. (The result is
  never the empty list, so the first case of the inner distinction is never taken.)
\<close>

fun Split :: "string \<Rightarrow> char \<Rightarrow> string list" where
  "Split [] sep = [[]]"
| "Split (x # xs) sep =
     (if x = sep then [] # Split xs sep
      else (case Split xs sep of
              [] \<Rightarrow> [[x]]
            | w # ws \<Rightarrow> (x # w) # ws))"

text \<open>\<open>strings.Join(elems, sep)\<close>: the elements with the separator between them.\<close>

fun Join :: "string list \<Rightarrow> string \<Rightarrow> string" where
  "Join [] sep = []"
| "Join [a] sep = a"
| "Join (a # b # bs) sep = a @ sep @ Join (b # bs) sep"

text \<open>\<open>strings.HasPrefix(s, prefix)\<close>.\<close>

definition HasPrefix :: "string \<Rightarrow> string \<Rightarrow> bool" where
  "HasPrefix s pre = (length pre \<le> length s \<and> take (length pre) s = pre)"

section \<open>Elements and their attributes\<close>

text \<open>
  An \<open>etree.Element\<close> carries a tag and a slice of attributes (key, value). The two
  attribute operations the program calls are \<open>SelectAttrValue\<close> (the value of the first
  attribute with the key, or the default) and \<open>CreateAttr\<close> (overwrite the value of the
  first attribute with the key, or append a new attribute). Attribute names are taken
  without namespace prefix.
\<close>

record element =
  Tag :: string
  Attr :: "(string \<times> string) list"

definition SelectAttrValue :: "element \<Rightarrow> string \<Rightarrow> string \<Rightarrow> string" where
  "SelectAttrValue e key dflt =
     (case map_of (Attr e) key of None \<Rightarrow> dflt | Some v \<Rightarrow> v)"

definition CreateAttr :: "element \<Rightarrow> string \<Rightarrow> string \<Rightarrow> element" where
  "CreateAttr e key val = e\<lparr>Attr := AList.update key val (Attr e)\<rparr>"

section \<open>The visibility toggle\<close>

definition expectedComponent :: "bool \<Rightarrow> string" where
  "expectedComponent hidden = (if hidden then ''display:none'' else ''display:inline'')"

text \<open>
  The loop of \<open>setHidden\<close> over the components: every component with the prefix
  \<open>display:\<close> is overwritten at its index and the flag \<open>done\<close> is raised. The function
  returns the components and the flag after the loop.
\<close>

fun replaceLoop :: "string list \<Rightarrow> string \<Rightarrow> bool \<Rightarrow> string list \<times> bool" where
  "replaceLoop [] expected done = ([], done)"
| "replaceLoop (component # rest) expected done =
     (if HasPrefix component ''display:''
      then (case replaceLoop rest expected True of (cs, d) \<Rightarrow> (expected # cs, d))
      else (case replaceLoop rest expected done of (cs, d) \<Rightarrow> (component # cs, d)))"

text \<open>The style string that \<open>setHidden\<close> computes from the one it reads.\<close>

definition newStyle :: "string \<Rightarrow> bool \<Rightarrow> string" where
  "newStyle attrValue hidden =
     (let attrComponents = Split attrValue CHR '';'';
          expected = expectedComponent hidden;
          (attrComponents, done) = replaceLoop attrComponents expected False;
          attrComponents = (if \<not> done then attrComponents @ [expected] else attrComponents)
      in Join attrComponents '';'')"

text \<open>\<open>setHidden\<close> mutates the element; the model returns the element after the call.\<close>

definition setHidden :: "element \<Rightarrow> bool \<Rightarrow> element" where
  "setHidden e hidden =
     CreateAttr e ''style'' (newStyle (SelectAttrValue e ''style'' '''') hidden)"

text \<open>
  The program's view of a style attribute: its components between the semicolons, and
  among them the display declarations, which are the components with the prefix
  \<open>display:\<close>; the value of such a declaration is what follows the prefix.
\<close>

definition styleComponents :: "element \<Rightarrow> string list" where
  "styleComponents e = Split (SelectAttrValue e ''style'' '''') CHR '';''"

definition displayValues :: "element \<Rightarrow> string list" where
  "displayValues e =
     map (drop (length ''display:''))
         (filter (\<lambda>c. HasPrefix c ''display:'') (styleComponents e))"

text \<open>
  A component that would be a display declaration but for the white space in front of
  it, as in \<open>color:red; display:none\<close>.
\<close>

definition isSpace :: "char \<Rightarrow> bool" where
  "isSpace c = (c = CHR '' '' \<or> c = CHR 0x09 \<or> c = CHR 0x0A \<or> c = CHR 0x0C \<or> c = CHR 0x0D)"

definition spacedDisplay :: "string \<Rightarrow> bool" where
  "spacedDisplay c =
     (c \<noteq> [] \<and> isSpace (hd c) \<and> HasPrefix (dropWhile isSpace c) ''display:'')"

section \<open>Documents and the element locator\<close>

text \<open>
  An \<open>etree.Document\<close> owns its elements, and the program holds pointers to them. The
  document is modelled as the store of its elements, and a pointer \<open>*etree.Element\<close> as
  an index into the store. The nesting of the elements is left out: the only query of the
  program is \<open>//[@id='...']\<close>, which ranges over every element of the document whatever
  its depth, and no function of the program follows a parent or child link.
\<close>

type_synonym document = "element list"

text \<open>
  \<open>doc.FindElements("//[@id='ID']")\<close>: the elements with an attribute \<open>id\<close> of the
  given value. The path string is read as the query it denotes; identifiers are taken
  free of the path syntax's own characters.
\<close>

definition FindElements :: "document \<Rightarrow> string \<Rightarrow> nat list" where
  "FindElements doc ident =
     filter (\<lambda>k. (''id'', ident) \<in> set (Attr (doc ! k))) [0..<length doc]"

text \<open>
  The two ways the process stops early: \<open>log.Fatalf\<close> (the message is logged and the
  process exits with status 1) and a run-time panic.
\<close>

datatype abort = Fatal string | Panic

text \<open>The verb \<open>%d\<close> of \<open>fmt\<close> on a non-negative integer.\<close>

fun itoa :: "nat \<Rightarrow> string" where
  "itoa n = (if n < 10 then [''0123456789'' ! n]
             else itoa (n div 10) @ [''0123456789'' ! (n mod 10)])"

declare itoa.simps [simp del]

definition newline :: string where
  "newline = [CHR 0x0A]"

definition assertOneElementById :: "document \<Rightarrow> string \<Rightarrow> abort + nat" where
  "assertOneElementById doc ident =
     (let elements = FindElements doc ident
      in if length elements \<noteq> 1
         then Inl (Fatal (''Expected one #'' @ ident @ '' element; found ''
                          @ itoa (length elements) @ newline))
         else Inr (elements ! 0))"

section \<open>Configuration\<close>

record ImageLayer =
  Suffix :: string
  HideIDs :: "string list"
  ShowIDs :: "string list"

record Image =
  Filename :: string
  Layers :: "ImageLayer list"

section \<open>The outside world\<close>

text \<open>
  The file system maps a path to what \<open>os.Stat\<close> finds there: nothing, a directory, or
  a file with its content and whether its mode is regular. Every call that leaves the
  process is recorded, in order, in \<open>calls\<close>.
\<close>

datatype fsnode = Directory | File (regular: bool) (content: string)

datatype call =
    Stat string
  | ReadFile string
  | ReadFromFile string
  | WriteToFile string document
  | Run string "string list"

record world =
  files :: "string \<Rightarrow> fsnode option"
  calls :: "call list"

definition record_call :: "call \<Rightarrow> world \<Rightarrow> world" where
  "record_call c w = w\<lparr>calls := calls w @ [c]\<rparr>"

text \<open>
  What the program cannot decide itself is a parameter: the YAML decoder, the XML parser
  and serializer of etree, whether an output file can be created, and the rasterizer
  (an error text, or the file system it leaves behind).
\<close>

record env =
  Unmarshal :: "string \<Rightarrow> string + Image list"
  parseXML :: "string \<Rightarrow> string + document"
  serializeXML :: "document \<Rightarrow> string"
  createError :: "(string \<Rightarrow> fsnode option) \<Rightarrow> string \<Rightarrow> string option"
  runCommand :: "string \<Rightarrow> string list \<Rightarrow> (string \<Rightarrow> fsnode option)
                   \<Rightarrow> string + (string \<Rightarrow> fsnode option)"

definition os_Stat :: "string \<Rightarrow> world \<Rightarrow> fsnode option \<times> world" where
  "os_Stat path w = (files w path, record_call (Stat path) w)"

definition os_ReadFile :: "string \<Rightarrow> world \<Rightarrow> (string + string) \<times> world" where
  "os_ReadFile path w =
     ((case files w path of
         None \<Rightarrow> Inl (''open '' @ path @ '': no such file or directory'')
       | Some Directory \<Rightarrow> Inl (''read '' @ path @ '': is a directory'')
       | Some (File r bytes) \<Rightarrow> Inr bytes),
      record_call (ReadFile path) w)"

definition doc_ReadFromFile :: "env \<Rightarrow> string \<Rightarrow> world \<Rightarrow> (string + document) \<times> world" where
  "doc_ReadFromFile env path w =
     ((case files w path of
         None \<Rightarrow> Inl (''open '' @ path @ '': no such file or directory'')
       | Some Directory \<Rightarrow> Inl (''read '' @ path @ '': is a directory'')
       | Some (File r bytes) \<Rightarrow> parseXML env bytes),
      record_call (ReadFromFile path) w)"

definition doc_WriteToFile :: "env \<Rightarrow> document \<Rightarrow> string \<Rightarrow> world \<Rightarrow> string option \<times> world" where
  "doc_WriteToFile env doc path w =
     (let w1 = record_call (WriteToFile path doc) w
      in case createError env (files w) path of
           Some err \<Rightarrow> (Some err, w1)
         | None \<Rightarrow> (None, w1\<lparr>files := (files w)(path \<mapsto> File True (serializeXML env doc))\<rparr>))"

definition cmd_Run :: "env \<Rightarrow> string \<Rightarrow> string list \<Rightarrow> world \<Rightarrow> string option \<times> world" where
  "cmd_Run env path args w =
     (let w1 = record_call (Run path args) w
      in case runCommand env path args (files w) of
           Inl err \<Rightarrow> (Some err, w1)
         | Inr fs \<Rightarrow> (None, w1\<lparr>files := fs\<rparr>))"

section \<open>Paths: the functions of package path/filepath used by the program\<close>

text \<open>
  The functions are those of a Unix build (separator \<open>/\<close>, no volume names).
  \<open>filepath.Clean\<close> works on the elements between the separators: empty elements and
  \<open>.\<close> are dropped, \<open>..\<close> removes the element before it when there is one to remove, is
  dropped at the root and is kept otherwise; an empty result is \<open>.\<close>.
\<close>

fun cleanLoop :: "bool \<Rightarrow> string list \<Rightarrow> string list \<Rightarrow> string list" where
  "cleanLoop rooted out [] = out"
| "cleanLoop rooted out (e # es) =
     (if e = [] \<or> e = ''.'' then cleanLoop rooted out es
      else if e = ''..'' then
        (if out \<noteq> [] \<and> last out \<noteq> ''..'' then cleanLoop rooted (butlast out) es
         else if \<not> rooted then cleanLoop rooted (out @ [''..'']) es
         else cleanLoop rooted out es)
      else cleanLoop rooted (out @ [e]) es)"

definition Clean :: "string \<Rightarrow> string" where
  "Clean path =
     (if path = [] then ''.''
      else let rooted = (hd path = CHR ''/'');
               out = cleanLoop rooted [] (Split path CHR ''/'');
               s = (if rooted then ''/'' else []) @ Join out ''/''
           in if s = [] then ''.'' else s)"

text \<open>\<open>filepath.Join\<close>: leading empty elements are skipped, the rest is joined and cleaned.\<close>

definition filepath_Join :: "string list \<Rightarrow> string" where
  "filepath_Join elem =
     (case dropWhile (\<lambda>e. e = []) elem of
        [] \<Rightarrow> []
      | es \<Rightarrow> Clean (Join es ''/''))"

text \<open>\<open>filepath.Base\<close>: the last element of the path, trailing separators removed.\<close>

definition Base :: "string \<Rightarrow> string" where
  "Base path =
     (if path = [] then ''.''
      else let stripped = rev (dropWhile (\<lambda>c. c = CHR ''/'') (rev path));
               lastElem = rev (takeWhile (\<lambda>c. c \<noteq> CHR ''/'') (rev stripped))
           in if lastElem = [] then ''/'' else lastElem)"

text \<open>
  \<open>filepath.Ext\<close>: the scan runs from the end of the path towards its start, and stops at
  the first dot (the extension starts there) or separator (no extension).
\<close>

fun extLoop :: "string \<Rightarrow> string \<Rightarrow> string" where
  "extLoop [] seen = []"
| "extLoop (c # cs) seen =
     (if c = CHR ''/'' then []
      else if c = CHR ''.'' then c # seen
      else extLoop cs (c # seen))"

definition Ext :: "string \<Rightarrow> string" where
  "Ext path = extLoop (rev path) []"

text \<open>\<open>filepath.Dir\<close>: all but the last element of the path, cleaned.\<close>

definition Dir :: "string \<Rightarrow> string" where
  "Dir path = Clean (rev (dropWhile (\<lambda>c. c \<noteq> CHR ''/'') (rev path)))"

text \<open>
  \<open>strings.ToLower\<close> on the letters of ASCII; other bytes are kept. (No character
  outside ASCII has one of the letters of \<open>.svg\<close> as its lower case.)
\<close>

definition lowerChar :: "char \<Rightarrow> char" where
  "lowerChar c =
     (let n = (of_char c :: nat)
      in if 65 \<le> n \<and> n \<le> 90 then char_of (n + 32) else c)"

definition ToLower :: "string \<Rightarrow> string" where
  "ToLower s = map lowerChar s"

section \<open>Processing a layer, an image, a configuration\<close>

text \<open>
  The two loops of \<open>processImageLayer\<close> over the identifiers differ in the flag they
  pass to \<open>setHidden\<close> only. The element found is mutated in the document.
\<close>

fun toggleLoop :: "document \<Rightarrow> string list \<Rightarrow> bool \<Rightarrow> abort + document" where
  "toggleLoop doc [] hidden = Inr doc"
| "toggleLoop doc (ident # idents) hidden =
     (case assertOneElementById doc ident of
        Inl a \<Rightarrow> Inl a
      | Inr element \<Rightarrow>
          toggleLoop (doc[element := setHidden (doc ! element) hidden]) idents hidden)"

definition inkscapeArgs :: "string \<Rightarrow> string \<Rightarrow> string list" where
  "inkscapeArgs outPng outFile =
     [''flatpak'', ''run'', ''org.inkscape.Inkscape'',
      ''--export-filename='' @ outPng,
      ''--export-width=1280'',
      ''--export-height=720'',
      outFile]"

definition processImageLayer ::
  "env \<Rightarrow> ImageLayer \<Rightarrow> document \<Rightarrow> string \<Rightarrow> world \<Rightarrow> (abort + document) \<times> world" where
  "processImageLayer env layer doc outFile w =
     (case toggleLoop doc (HideIDs layer) True of
        Inl a \<Rightarrow> (Inl a, w)
      | Inr doc1 \<Rightarrow>
     (case toggleLoop doc1 (ShowIDs layer) False of
        Inl a \<Rightarrow> (Inl a, w)
      | Inr doc2 \<Rightarrow>
     (case doc_WriteToFile env doc2 outFile w of
        (Some err, w1) \<Rightarrow>
          (Inl (Fatal (''Problem writing to '' @ outFile @ '': '' @ err @ newline)), w1)
      | (None, w1) \<Rightarrow>
          if length outFile < 4 then (Inl Panic, w1)
          else
            let outPng = take (length outFile - 4) outFile @ ''.png''
            in (case cmd_Run env ''/usr/bin/flatpak'' (inkscapeArgs outPng outFile) w1 of
                  (Some err, w2) \<Rightarrow>
                    (Inl (Fatal (''Could not convert SVG to PNG with Inkscape: ''
                                 @ err @ newline)), w2)
                | (None, w2) \<Rightarrow> (Inr doc2, w2)))))"

text \<open>The loop of \<open>processImage\<close> over the layers; the document is shared by all of them.\<close>

fun layersLoop ::
  "env \<Rightarrow> ImageLayer list \<Rightarrow> document \<Rightarrow> string \<Rightarrow> string \<Rightarrow> string \<Rightarrow> world
     \<Rightarrow> abort option \<times> world" where
  "layersLoop env [] doc outPrefix outExt outDir w = (None, w)"
| "layersLoop env (layer # layers) doc outPrefix outExt outDir w =
     (let outBase = outPrefix @ Suffix layer @ outExt;
          outFile = filepath_Join [outDir, outBase]
      in case processImageLayer env layer doc outFile w of
           (Inl a, w1) \<Rightarrow> (Some a, w1)
         | (Inr doc1, w1) \<Rightarrow> layersLoop env layers doc1 outPrefix outExt outDir w1)"

definition processImage :: "env \<Rightarrow> Image \<Rightarrow> string \<Rightarrow> string \<Rightarrow> world \<Rightarrow> abort option \<times> world" where
  "processImage env img inDir outDir w =
     (let inFile = filepath_Join [inDir, Filename img]
      in case os_Stat inFile w of
           (None, w1) \<Rightarrow>
             (Some (Fatal (''Source file needs to exist: '' @ inFile @ newline)), w1)
         | (Some fileStat, w1) \<Rightarrow>
             if \<not> (case fileStat of Directory \<Rightarrow> False | File r bytes \<Rightarrow> r)
             then (Some (Fatal (''Input file '' @ inFile @ '' is not regular file'' @ newline)), w1)
             else
               let outPrefix = Base inFile;
                   outExt = Ext outPrefix;
                   outPrefix = take (length outPrefix - length outExt) outPrefix
               in if ToLower outExt \<noteq> ''.svg''
                  then (Some (Fatal (''Expected .svg file but got '' @ inFile @ newline)), w1)
                  else (case doc_ReadFromFile env inFile w1 of
                          (Inl err, w2) \<Rightarrow>
                            (Some (Fatal (''Error reading SVG XML file: '' @ err @ newline)), w2)
                        | (Inr doc, w2) \<Rightarrow>
                            layersLoop env (Layers img) doc outPrefix outExt outDir w2))"

text \<open>The loop of \<open>main\<close> over the images.\<close>

fun imagesLoop :: "env \<Rightarrow> Image list \<Rightarrow> string \<Rightarrow> string \<Rightarrow> world \<Rightarrow> abort option \<times> world" where
  "imagesLoop env [] inDir outDir w = (None, w)"
| "imagesLoop env (yamlImage # yamlImages) inDir outDir w =
     (case processImage env yamlImage inDir outDir w of
        (Some a, w1) \<Rightarrow> (Some a, w1)
      | (None, w1) \<Rightarrow> imagesLoop env yamlImages inDir outDir w1)"

text \<open>\<open>main\<close>, on the arguments \<open>os.Args\<close> of the process (the program's name first).\<close>

definition main :: "env \<Rightarrow> string list \<Rightarrow> world \<Rightarrow> abort option \<times> world" where
  "main env Args w =
     (if length Args \<noteq> 3
      then (Some (Fatal (''Usage: bulletpointer /path/to/in.yaml /path/to/out/dir'' @ newline)), w)
      else case os_Stat (Args ! 2) w of
             (None, w1) \<Rightarrow>
               (Some (Fatal (''Destination dir needs to exist: '' @ Args ! 2 @ newline)), w1)
           | (Some dirStat, w1) \<Rightarrow>
               if dirStat \<noteq> Directory
               then (Some (Fatal (''Destination should be a directory: '' @ Args ! 2 @ newline)), w1)
               else (case os_ReadFile (Args ! 1) w1 of
                       (Inl err, w2) \<Rightarrow>
                         (Some (Fatal (''Problem reading file: '' @ err @ newline)), w2)
                     | (Inr yamlBytes, w2) \<Rightarrow>
                         (case Unmarshal env yamlBytes of
                            Inl err \<Rightarrow>
                              (Some (Fatal (''Problem parsing YAML: '' @ err @ newline)), w2)
                          | Inr yamlImages \<Rightarrow>
                              imagesLoop env yamlImages (Dir (Args ! 1)) (Args ! 2) w2)))"

text \<open>
  The order of the toggles of a layer in the words of the specification: all of
  \<open>hide_ids\<close>, to be hidden, then all of \<open>show_ids\<close>, to be shown, each list in its own
  order; and one loop that applies such a sequence of toggles from left to right.
\<close>

definition layerToggles :: "ImageLayer \<Rightarrow> (string \<times> bool) list" where
  "layerToggles layer =
     map (\<lambda>ident. (ident, True)) (HideIDs layer) @ map (\<lambda>ident. (ident, False)) (ShowIDs layer)"

fun toggleSeq :: "document \<Rightarrow> (string \<times> bool) list \<Rightarrow> abort + document" where
  "toggleSeq doc [] = Inr doc"
| "toggleSeq doc ((ident, hidden) # rest) =
     (case assertOneElementById doc ident of
        Inl a \<Rightarrow> Inl a
      | Inr element \<Rightarrow> toggleSeq (doc[element := setHidden (doc ! element) hidden]) rest)"

section \<open>A small run\<close>

text \<open>
  A configuration of two images, the second of which names a source file that does not
  exist, with a document of three elements, and an outside world in which every output
  file can be written and the rasterizer succeeds.
\<close>

definition demoDoc :: document where
  "demoDoc =
     [\<lparr>Tag = ''svg'', Attr = []\<rparr>,
      \<lparr>Tag = ''text'', Attr = [(''id'', ''line1''), (''style'', ''fill:black;display:block'')]\<rparr>,
      \<lparr>Tag = ''text'', Attr = [(''id'', ''line2'')]\<rparr>]"

definition demoLayer1 :: ImageLayer where
  "demoLayer1 = \<lparr>Suffix = ''_1'', HideIDs = [''line1'', ''line2''], ShowIDs = [''line1'']\<rparr>"

definition demoLayer2 :: ImageLayer where
  "demoLayer2 = \<lparr>Suffix = ''_2'', HideIDs = [], ShowIDs = [''line2'']\<rparr>"

definition demoImages :: "Image list" where
  "demoImages =
     [\<lparr>Filename = ''title.svg'', Layers = [demoLayer1, demoLayer2]\<rparr>,
      \<lparr>Filename = ''missing.svg'', Layers = [demoLayer1]\<rparr>]"

definition demoEnv :: env where
  "demoEnv =
     \<lparr>Unmarshal = (\<lambda>bytes. Inr demoImages),
      parseXML = (\<lambda>bytes. Inr demoDoc),
      serializeXML = (\<lambda>doc. ''<svg/>''),
      createError = (\<lambda>fs path. None),
      runCommand = (\<lambda>path args fs. Inr fs)\<rparr>"

definition demoWorld :: world where
  "demoWorld =
     \<lparr>files = [''/talk/out'' \<mapsto> Directory,
               ''/talk/slides.yaml'' \<mapsto> File True ''- filename: title.svg'',
               ''/talk/title.svg'' \<mapsto> File True ''<svg/>''],
      calls = []\<rparr>"

section \<open>Properties of the string functions\<close>

lemma Split_not_Nil: "Split s sep \<noteq> []"
  by (induction s) (auto split: list.splits)

lemma Split_no_sep: "c \<in> set (Split s sep) \<Longrightarrow> sep \<notin> set c"
proof (induction s arbitrary: c)
  case Nil
  then show ?case by simp
next
  case (Cons x xs)
  show ?case
  proof (cases "x = sep")
    case True
    with Cons show ?thesis by auto
  next
    case False
    obtain w ws where sp: "Split xs sep = w # ws"
      using Split_not_Nil [of xs sep] by (cases "Split xs sep") auto
    with Cons.prems False have "c = x # w \<or> c \<in> set ws" by auto
    then show ?thesis
      using Cons.IH sp False by auto
  qed
qed

lemma Split_Join:
  "cs \<noteq> [] \<Longrightarrow> \<forall>c \<in> set cs. sep \<notin> set c \<Longrightarrow> Split (Join cs [sep]) sep = cs"
proof (induction cs "[sep]" rule: Join.induct)
  case 1
  then show ?case by simp
next
  case (2 a)
  then show ?case by (induction a) auto
next
  case (3 a b bs)
  then have rest: "Split (Join (b # bs) [sep]) sep = b # bs" by simp
  from 3 have "sep \<notin> set a" by simp
  then show ?case using rest by (induction a) auto
qed

lemma Join_Split: "Join (Split s sep) [sep] = s"
proof (induction s)
  case Nil
  then show ?case by simp
next
  case (Cons x xs)
  obtain w ws where sp: "Split xs sep = w # ws"
    using Split_not_Nil [of xs sep] by (cases "Split xs sep") auto
  with Cons show ?case by (cases ws) auto
qed

section \<open>The visibility toggle: lemmas\<close>

lemma replaceLoop_fst:
  "fst (replaceLoop cs ex d) = map (\<lambda>c. if HasPrefix c ''display:'' then ex else c) cs"
  by (induction cs arbitrary: d) (simp_all add: split_beta)

lemma replaceLoop_snd:
  "snd (replaceLoop cs ex d) = (d \<or> (\<exists>c \<in> set cs. HasPrefix c ''display:''))"
  by (induction cs arbitrary: d) (simp_all add: split_beta)

lemma newStyle_eq:
  "newStyle s h =
     Join (map (\<lambda>c. if HasPrefix c ''display:'' then expectedComponent h else c) (Split s CHR '';'')
           @ (if \<exists>c \<in> set (Split s CHR '';''). HasPrefix c ''display:'' then []
              else [expectedComponent h])) '';''"
proof -
  obtain cs d where r: "replaceLoop (Split s CHR '';'') (expectedComponent h) False = (cs, d)"
    by (cases "replaceLoop (Split s CHR '';'') (expectedComponent h) False")
  from r replaceLoop_fst [of "Split s CHR '';''" "expectedComponent h" False]
  have cs: "cs = map (\<lambda>c. if HasPrefix c ''display:'' then expectedComponent h else c) (Split s CHR '';'')"
    by simp
  from r replaceLoop_snd [of "Split s CHR '';''" "expectedComponent h" False]
  have d: "d = (\<exists>c \<in> set (Split s CHR '';''). HasPrefix c ''display:'')"
    by simp
  show ?thesis
    unfolding newStyle_def Let_def r using cs d by simp
qed

lemma expectedComponent_no_semicolon: "CHR '';'' \<notin> set (expectedComponent h)"
  by (simp add: expectedComponent_def)

lemma expectedComponent_display: "HasPrefix (expectedComponent h) ''display:''"
  by (simp add: expectedComponent_def HasPrefix_def)

lemma Split_newStyle:
  "Split (newStyle s h) CHR '';'' =
     map (\<lambda>c. if HasPrefix c ''display:'' then expectedComponent h else c) (Split s CHR '';'')
     @ (if \<exists>c \<in> set (Split s CHR '';''). HasPrefix c ''display:'' then []
        else [expectedComponent h])"
  (is "_ = ?cs")
proof -
  have ne: "?cs \<noteq> []" using Split_not_Nil [of s "CHR '';''"] by simp
  have "\<forall>c \<in> set ?cs. CHR '';'' \<notin> set c"
    using Split_no_sep [of _ s "CHR '';''"] expectedComponent_no_semicolon [of h]
    by (auto split: if_splits)
  with ne have "Split (Join ?cs [CHR '';'']) CHR '';'' = ?cs"
    by (rule Split_Join)
  then show ?thesis by (simp only: newStyle_eq)
qed

lemma SelectAttrValue_CreateAttr: "SelectAttrValue (CreateAttr e k v) k d = v"
  by (simp add: SelectAttrValue_def CreateAttr_def update_conv')

lemma style_setHidden:
  "SelectAttrValue (setHidden e h) ''style'' d = newStyle (SelectAttrValue e ''style'' '''') h"
  by (simp add: setHidden_def SelectAttrValue_CreateAttr)

lemma styleComponents_setHidden:
  "styleComponents (setHidden e h) =
     map (\<lambda>c. if HasPrefix c ''display:'' then expectedComponent h else c) (styleComponents e)
     @ (if \<exists>c \<in> set (styleComponents e). HasPrefix c ''display:'' then []
        else [expectedComponent h])"
  by (simp only: styleComponents_def style_setHidden Split_newStyle)


section \<open>The visibility toggle: claims\<close>

lemma map_of_setHidden:
  "map_of (Attr (setHidden e h)) ''style'' = Some (newStyle (SelectAttrValue e ''style'' '''') h)"
  by (simp add: setHidden_def CreateAttr_def update_conv')

lemma newStyle_empty: "newStyle [] True = '';display:none''"
  by (simp add: newStyle_eq expectedComponent_def HasPrefix_def)

lemma newStyle_color_red: "newStyle ''color:red'' True = ''color:red;display:none''"
  by (simp add: newStyle_eq expectedComponent_def HasPrefix_def)

text \<open>
  Claim C1 as written fails in its first half. An element without style attribute is read
  as the empty style; splitting the empty string gives one empty component, the
  declaration is appended after it, and the join puts a semicolon between the two: the
  style is \<open>;display:none\<close>, not \<open>display:none\<close>.
\<close>

theorem setHidden_no_style_counterexample:
  "map_of (Attr \<lparr>Tag = ''g'', Attr = [(''id'', ''line1'')]\<rparr>) ''style'' = None \<and>
   map_of (Attr (setHidden \<lparr>Tag = ''g'', Attr = [(''id'', ''line1'')]\<rparr> True)) ''style''
     \<noteq> Some ''display:none''"
  by (simp add: map_of_setHidden SelectAttrValue_def newStyle_empty)

text \<open>
  Claim C1, amended: for every element without style attribute, \<open>setHidden(e, true)\<close>
  leaves the style attribute \<open>;display:none\<close> (with a leading semicolon); for every
  element whose style attribute is exactly \<open>color:red\<close>, it leaves
  \<open>color:red;display:none\<close>.
\<close>

theorem setHidden_initial_styles:
  "(map_of (Attr e) ''style'' = None \<longrightarrow>
      map_of (Attr (setHidden e True)) ''style'' = Some '';display:none'') \<and>
   (map_of (Attr e) ''style'' = Some ''color:red'' \<longrightarrow>
      map_of (Attr (setHidden e True)) ''style'' = Some ''color:red;display:none'')"
  by (simp add: map_of_setHidden SelectAttrValue_def newStyle_empty newStyle_color_red)

text \<open>
  The amended claim C1 at two concrete elements, one with an \<open>id\<close> only and one with
  the style \<open>color:red\<close>.
\<close>

theorem setHidden_initial_styles_witness:
  "map_of (Attr (setHidden \<lparr>Tag = ''g'', Attr = [(''id'', ''line1'')]\<rparr> True)) ''style''
     = Some '';display:none'' \<and>
   map_of (Attr (setHidden \<lparr>Tag = ''g'', Attr = [(''style'', ''color:red'')]\<rparr> True)) ''style''
     = Some ''color:red;display:none''"
  using setHidden_initial_styles [of "\<lparr>Tag = ''g'', Attr = [(''id'', ''line1'')]\<rparr>"]
        setHidden_initial_styles [of "\<lparr>Tag = ''g'', Attr = [(''style'', ''color:red'')]\<rparr>"]
  by simp

text \<open>
  Claim C2: for every element and flag, \<open>setHidden\<close> writes a style attribute (the
  attribute is present after the call, whatever was there before), and the components of
  the written style are those of the style read, with every component that starts with
  \<open>display:\<close> (not the first one only) replaced at its position by the new declaration
  and every other component unchanged; the declaration is appended only when no component
  was replaced.
\<close>

theorem setHidden_rewrites_every_display:
  "map_of (Attr (setHidden e h)) ''style'' = Some (SelectAttrValue (setHidden e h) ''style'' '''') \<and>
   styleComponents (setHidden e h) =
     map (\<lambda>c. if HasPrefix c ''display:'' then expectedComponent h else c) (styleComponents e)
     @ (if \<exists>c \<in> set (styleComponents e). HasPrefix c ''display:'' then []
        else [expectedComponent h])"
  by (simp only: map_of_setHidden style_setHidden styleComponents_setHidden simp_thms)

text \<open>
  Claim C2 at a style with two display declarations around another component, and at a
  style that the call leaves as it was.
\<close>

theorem setHidden_rewrites_every_display_witness:
  "styleComponents (setHidden \<lparr>Tag = ''g'', Attr = [(''style'', ''display:block;x;display:none'')]\<rparr> False)
     = [''display:inline'', ''x'', ''display:inline''] \<and>
   styleComponents (setHidden \<lparr>Tag = ''g'', Attr = [(''style'', ''display:none'')]\<rparr> True)
     = [''display:none'']"
  using setHidden_rewrites_every_display [of "\<lparr>Tag = ''g'', Attr = [(''style'', ''display:block;x;display:none'')]\<rparr>" False]
        setHidden_rewrites_every_display [of "\<lparr>Tag = ''g'', Attr = [(''style'', ''display:none'')]\<rparr>" True]
  by (simp add: styleComponents_def SelectAttrValue_def HasPrefix_def expectedComponent_def)

lemma styleComponents_twice:
  "styleComponents (setHidden (setHidden e h1) h2) =
     map (\<lambda>c. if HasPrefix c ''display:'' then expectedComponent h2 else c)
       (styleComponents (setHidden e h1))"
proof -
  have "\<exists>c \<in> set (styleComponents (setHidden e h1)). HasPrefix c ''display:''"
    using expectedComponent_display [of h1]
    by (auto simp: styleComponents_setHidden)
  then show ?thesis
    using styleComponents_setHidden [of "setHidden e h1" h2] by simp
qed

lemma style_eq_Join_components:
  "SelectAttrValue e ''style'' '''' = Join (styleComponents e) '';''"
  using Join_Split [of "SelectAttrValue e ''style'' ''''" "CHR '';''"]
  by (simp add: styleComponents_def)

text \<open>
  Claim C4: hiding an element twice gives the same style attribute string as hiding it
  once, whatever the style was at first; the element as a whole is the same, too.
\<close>

theorem setHidden_hide_idempotent:
  "SelectAttrValue (setHidden (setHidden e True) True) ''style'' ''''
     = SelectAttrValue (setHidden e True) ''style'' '''' \<and>
   setHidden (setHidden e True) True = setHidden e True"
proof -
  have comps: "styleComponents (setHidden (setHidden e True) True)
                 = styleComponents (setHidden e True)"
    using expectedComponent_display [of True]
    by (simp only: styleComponents_twice) (auto simp: styleComponents_setHidden)
  then have style: "SelectAttrValue (setHidden (setHidden e True) True) ''style'' ''''
     = SelectAttrValue (setHidden e True) ''style'' ''''"
    by (simp only: style_eq_Join_components)
  have "newStyle (SelectAttrValue (setHidden e True) ''style'' '''') True
          = SelectAttrValue (setHidden e True) ''style'' ''''"
    using style by (simp only: style_setHidden)
  then have "setHidden (setHidden e True) True = setHidden e True"
    by (simp add: setHidden_def [of "setHidden e True"] CreateAttr_def)
       (simp add: setHidden_def CreateAttr_def SelectAttrValue_def update_conv')
  with style show ?thesis by simp
qed

text \<open>
  Claim C5: after \<open>setHidden(e, true)\<close> and then \<open>setHidden(e, false)\<close> the style has a
  display declaration, and every display declaration of the style has the value
  \<open>inline\<close>, whatever the style of the element was at first.
\<close>

theorem setHidden_hide_then_show_inline: "set (displayValues (setHidden (setHidden e True) False)) = {''inline''}"
proof -
  let ?cs = "styleComponents (setHidden e True)"
  have ex: "\<exists>c \<in> set ?cs. HasPrefix c ''display:''"
    using expectedComponent_display [of True]
    by (auto simp: styleComponents_setHidden)
  have "map (drop (length ''display:'')) (filter (\<lambda>c. HasPrefix c ''display:'')
          (map (\<lambda>c. if HasPrefix c ''display:'' then expectedComponent False else c) cs))
        = map (\<lambda>c. ''inline'') (filter (\<lambda>c. HasPrefix c ''display:'') cs)" for cs
    by (induction cs) (auto simp: HasPrefix_def expectedComponent_def)
  then have "displayValues (setHidden (setHidden e True) False)
        = map (\<lambda>c. ''inline'') (filter (\<lambda>c. HasPrefix c ''display:'') ?cs)"
    by (simp only: displayValues_def styleComponents_twice)
  moreover from ex have "filter (\<lambda>c. HasPrefix c ''display:'') ?cs \<noteq> []"
    by (simp add: filter_empty_conv)
  ultimately show ?thesis by (cases "filter (\<lambda>c. HasPrefix c ''display:'') ?cs") auto
qed

lemma spacedDisplay_unrecognised: "spacedDisplay c \<Longrightarrow> \<not> HasPrefix c ''display:''"
  by (cases c) (auto simp: spacedDisplay_def HasPrefix_def isSpace_def)

lemma Join_snoc: "cs \<noteq> [] \<Longrightarrow> Join (cs @ [x]) sep = Join cs sep @ sep @ x"
  by (induction cs sep rule: Join.induct) auto

lemma styleComponents_not_Nil: "styleComponents e \<noteq> []"
  by (simp add: styleComponents_def Split_not_Nil)

text \<open>
  Claim C10 as written fails for a style that holds a recognised display declaration
  next to the one behind white space: the recognised one is rewritten, the flag
  \<open>done\<close> is raised, and nothing is appended.
\<close>

theorem setHidden_spaced_display_counterexample:
  "'' display:none'' \<in> set (styleComponents \<lparr>Tag = ''g'', Attr = [(''style'', ''display:block; display:none'')]\<rparr>) \<and>
   spacedDisplay '' display:none'' \<and>
   styleComponents (setHidden \<lparr>Tag = ''g'', Attr = [(''style'', ''display:block; display:none'')]\<rparr> True)
     = [''display:none'', '' display:none''] \<and>
   styleComponents (setHidden \<lparr>Tag = ''g'', Attr = [(''style'', ''display:block; display:none'')]\<rparr> True)
     \<noteq> styleComponents \<lparr>Tag = ''g'', Attr = [(''style'', ''display:block; display:none'')]\<rparr>
         @ [expectedComponent True]"
  by (simp add: styleComponents_setHidden)
     (simp add: styleComponents_def SelectAttrValue_def spacedDisplay_def isSpace_def
        HasPrefix_def expectedComponent_def)

text \<open>
  Claim C10, amended: a component that is a display declaration behind white space is
  never recognised (the prefix test fails on the white space) and stays in the style;
  when moreover no component of the style starts with \<open>display:\<close>, \<open>setHidden\<close>
  appends the new declaration, so that the style holds both: the old style, a semicolon
  and the new declaration.
\<close>

theorem setHidden_spaced_display:
  assumes "spacedDisplay c" and "c \<in> set (styleComponents e)"
  shows "\<not> HasPrefix c ''display:'' \<and>
         c \<in> set (styleComponents (setHidden e h)) \<and>
         ((\<forall>d \<in> set (styleComponents e). \<not> HasPrefix d ''display:'') \<longrightarrow>
            styleComponents (setHidden e h) = styleComponents e @ [expectedComponent h] \<and>
            SelectAttrValue (setHidden e h) ''style'' ''''
              = SelectAttrValue e ''style'' '''' @ '';'' @ expectedComponent h)"
proof -
  have unrec: "\<not> HasPrefix c ''display:''"
    using assms(1) by (rule spacedDisplay_unrecognised)
  with assms(2) have kept: "c \<in> set (styleComponents (setHidden e h))"
    by (force simp: styleComponents_setHidden)
  have "styleComponents (setHidden e h) = styleComponents e @ [expectedComponent h] \<and>
        SelectAttrValue (setHidden e h) ''style'' ''''
          = SelectAttrValue e ''style'' '''' @ '';'' @ expectedComponent h"
    if none: "\<forall>d \<in> set (styleComponents e). \<not> HasPrefix d ''display:''"
  proof -
    from none have "map (\<lambda>c. if HasPrefix c ''display:'' then expectedComponent h else c)
                      (styleComponents e) = styleComponents e"
      by (simp add: map_idI)
    with none have comps: "styleComponents (setHidden e h) = styleComponents e @ [expectedComponent h]"
      by (simp add: styleComponents_setHidden)
    have "SelectAttrValue (setHidden e h) ''style'' ''''
            = Join (styleComponents e @ [expectedComponent h]) '';''"
      by (simp only: style_eq_Join_components [of "setHidden e h"] comps)
    also have "\<dots> = Join (styleComponents e) '';'' @ '';'' @ expectedComponent h"
      using styleComponents_not_Nil by (rule Join_snoc)
    finally show ?thesis
      using comps by (simp only: style_eq_Join_components [of e] simp_thms)
  qed
  with unrec kept show ?thesis by blast
qed

text \<open>
  The amended claim C10 at the style \<open>color:red; display:none\<close>.
\<close>

theorem setHidden_spaced_display_witness:
  "SelectAttrValue (setHidden \<lparr>Tag = ''g'', Attr = [(''style'', ''color:red; display:none'')]\<rparr> True) ''style'' ''''
     = ''color:red; display:none;display:none'' \<and>
   styleComponents (setHidden \<lparr>Tag = ''g'', Attr = [(''style'', ''color:red; display:none'')]\<rparr> True)
     = [''color:red'', '' display:none'', ''display:none'']"
proof -
  let ?e = "\<lparr>Tag = ''g'', Attr = [(''style'', ''color:red; display:none'')]\<rparr>"
  have comps: "styleComponents ?e = [''color:red'', '' display:none'']"
    by (simp add: styleComponents_def SelectAttrValue_def)
  have sp: "spacedDisplay '' display:none''"
    by (simp add: spacedDisplay_def isSpace_def HasPrefix_def)
  have mem: "'' display:none'' \<in> set (styleComponents ?e)"
    by (simp add: comps)
  have none: "\<forall>d \<in> set (styleComponents ?e). \<not> HasPrefix d ''display:''"
    by (simp add: comps HasPrefix_def)
  from setHidden_spaced_display [OF sp mem, of True] none show ?thesis
    by (simp add: comps expectedComponent_def SelectAttrValue_def)
qed

section \<open>The element locator: claims\<close>


lemma FindElements_mem:
  "k \<in> set (FindElements doc ident) \<longleftrightarrow> k < length doc \<and> (''id'', ident) \<in> set (Attr (doc ! k))"
  by (auto simp: FindElements_def)



lemma assertOneElementById_Inr:
  "assertOneElementById doc ident = Inr e \<longleftrightarrow> FindElements doc ident = [e]"
proof (cases "FindElements doc ident")
  case Nil
  then show ?thesis by (simp add: assertOneElementById_def)
next
  case (Cons k ks)
  then show ?thesis by (cases ks) (auto simp: assertOneElementById_def)
qed



section \<open>The toggles of a layer\<close>

lemma displayValues_setHidden:
  "set (displayValues (setHidden e h)) = {drop (length ''display:'') (expectedComponent h)}"
proof -
  have "filter (\<lambda>c. HasPrefix c ''display:'')
          (map (\<lambda>c. if HasPrefix c ''display:'' then expectedComponent h else c) cs)
        = map (\<lambda>c. expectedComponent h) (filter (\<lambda>c. HasPrefix c ''display:'') cs)" for cs
    using expectedComponent_display [of h] by (induction cs) auto
  then have "set (filter (\<lambda>c. HasPrefix c ''display:'') (styleComponents (setHidden e h)))
               = {expectedComponent h}"
    using expectedComponent_display [of h]
    by (auto simp: styleComponents_setHidden)
  then show ?thesis
    by (simp add: displayValues_def del: set_filter)
qed

lemma update_other_key:
  "k' \<noteq> k \<Longrightarrow> (k', x) \<in> set (AList.update k v al) \<longleftrightarrow> (k', x) \<in> set al"
  by (induction al) auto

lemma setHidden_id: "(''id'', i) \<in> set (Attr (setHidden e h)) \<longleftrightarrow> (''id'', i) \<in> set (Attr e)"
  by (simp add: setHidden_def CreateAttr_def update_other_key)

lemma FindElements_toggle:
  "FindElements (doc[k := setHidden (doc ! k) h]) i = FindElements doc i"
proof -
  have "(''id'', i) \<in> set (Attr (doc[k := setHidden (doc ! k) h] ! x))
          \<longleftrightarrow> (''id'', i) \<in> set (Attr (doc ! x))" if "x < length doc" for x
    using that by (cases "x = k") (simp_all add: setHidden_id)
  then show ?thesis
    unfolding FindElements_def by (intro filter_cong) simp_all
qed

lemma toggleLoop_toggleSeq:
  "toggleLoop doc idents h = toggleSeq doc (map (\<lambda>ident. (ident, h)) idents)"
  by (induction idents arbitrary: doc) (auto split: sum.splits)

lemma toggleSeq_append:
  "toggleSeq doc (xs @ ys) =
     (case toggleSeq doc xs of Inl a \<Rightarrow> Inl a | Inr d \<Rightarrow> toggleSeq d ys)"
  by (induction doc xs rule: toggleSeq.induct) (auto split: sum.splits)

lemma toggleLoop_FindElements:
  "toggleLoop doc idents h = Inr doc' \<Longrightarrow> FindElements doc' i = FindElements doc i"
proof (induction idents arbitrary: doc)
  case Nil
  then show ?case by simp
next
  case (Cons ident idents)
  then show ?case
    by (auto split: sum.splits simp: FindElements_toggle)
qed

lemma toggleLoop_length:
  "toggleLoop doc idents h = Inr doc' \<Longrightarrow> length doc' = length doc"
  by (induction idents arbitrary: doc) (auto split: sum.splits)

lemma toggleLoop_unique:
  "toggleLoop doc idents h = Inr doc' \<Longrightarrow> i \<in> set idents \<Longrightarrow> \<exists>k. FindElements doc i = [k]"
proof (induction idents arbitrary: doc)
  case Nil
  then show ?case by simp
next
  case (Cons ident idents)
  from Cons.prems(1) obtain element where
    el: "assertOneElementById doc ident = Inr element" and
    rest: "toggleLoop (doc[element := setHidden (doc ! element) h]) idents h = Inr doc'"
    by (auto split: sum.splits)
  show ?case
  proof (cases "i = ident")
    case True
    with el show ?thesis by (auto simp: assertOneElementById_Inr)
  next
    case False
    with Cons.prems(2) have "i \<in> set idents" by simp
    from Cons.IH [OF rest this] show ?thesis by (simp add: FindElements_toggle)
  qed
qed

lemma toggleLoop_touched:
  "toggleLoop doc idents h = Inr doc' \<Longrightarrow> k < length doc \<Longrightarrow>
   (\<exists>i \<in> set idents. FindElements doc i = [k])
     \<or> set (displayValues (doc ! k)) = {drop (length ''display:'') (expectedComponent h)} \<Longrightarrow>
   set (displayValues (doc' ! k)) = {drop (length ''display:'') (expectedComponent h)}"
proof (induction idents arbitrary: doc)
  case Nil
  then show ?case by simp
next
  case (Cons ident idents)
  from Cons.prems(1) obtain element where
    el: "assertOneElementById doc ident = Inr element" and
    rest: "toggleLoop (doc[element := setHidden (doc ! element) h]) idents h = Inr doc'"
    by (auto split: sum.splits)
  let ?doc1 = "doc[element := setHidden (doc ! element) h]"
  have len: "k < length ?doc1" using Cons.prems(2) by simp
  from el have found: "FindElements doc ident = [element]"
    by (simp add: assertOneElementById_Inr)
  have "(\<exists>i \<in> set idents. FindElements ?doc1 i = [k])
          \<or> set (displayValues (?doc1 ! k)) = {drop (length ''display:'') (expectedComponent h)}"
  proof (cases "element = k")
    case True
    with Cons.prems(2) show ?thesis
      by (simp add: displayValues_setHidden)
  next
    case False
    with found have "FindElements doc ident \<noteq> [k]" by simp
    with Cons.prems(3) False show ?thesis
      by (auto simp: FindElements_toggle)
  qed
  from Cons.IH [OF rest len this] show ?case .
qed

lemma doc_WriteToFile_calls:
  "doc_WriteToFile env d path w = (r, w1) \<Longrightarrow> calls w1 = calls w @ [WriteToFile path d]"
  by (auto simp: doc_WriteToFile_def record_call_def Let_def split: option.splits)

lemma cmd_Run_calls:
  "cmd_Run env path args w = (r, w1) \<Longrightarrow> calls w1 = calls w @ [Run path args]"
  by (auto simp: cmd_Run_def record_call_def Let_def split: sum.splits)

section \<open>The small run, evaluated\<close>

lemma demo_layer_toggles:
  "toggleSeq demoDoc (layerToggles demoLayer1) =
     Inr [\<lparr>Tag = ''svg'', Attr = []\<rparr>,
          \<lparr>Tag = ''text'', Attr = [(''id'', ''line1''), (''style'', ''fill:black;display:inline'')]\<rparr>,
          \<lparr>Tag = ''text'', Attr = [(''id'', ''line2''), (''style'', '';display:none'')]\<rparr>]"
  by code_simp

section \<open>The toggles of a layer: claims\<close>

text \<open>
  Claim C6: the toggles of \<open>processImageLayer\<close> are those of \<open>hide_ids\<close>, hiding, in
  the order of the list, followed by those of \<open>show_ids\<close>, showing, in the order of the
  list. When a toggle stops the program nothing has been written. Otherwise the document
  after the toggles is the one written to the output file, and in it every identifier
  that is in both lists names one element, whose style has display declarations, all of
  value \<open>inline\<close>: the show, applied second, wins.
\<close>

theorem processImageLayer_hides_then_shows:
  assumes run: "processImageLayer env layer doc outFile w = (r, w')"
  shows "(\<forall>a. toggleSeq doc (layerToggles layer) = Inl a \<longrightarrow> r = Inl a \<and> w' = w) \<and>
         (\<forall>doc'. toggleSeq doc (layerToggles layer) = Inr doc' \<longrightarrow>
            (\<exists>rest. calls w' = calls w @ WriteToFile outFile doc' # rest) \<and>
            (\<forall>d. r = Inr d \<longrightarrow> d = doc') \<and>
            (\<forall>i \<in> set (HideIDs layer) \<inter> set (ShowIDs layer).
               \<exists>k. FindElements doc' i = [k] \<and> k < length doc' \<and>
                   set (displayValues (doc' ! k)) = {''inline''}))"
proof -
  have seq: "toggleSeq doc (layerToggles layer) =
               (case toggleLoop doc (HideIDs layer) True of
                  Inl a \<Rightarrow> Inl a
                | Inr doc1 \<Rightarrow> toggleLoop doc1 (ShowIDs layer) False)"
    by (simp add: layerToggles_def toggleSeq_append toggleLoop_toggleSeq split: sum.splits)
  have fail: "r = Inl a \<and> w' = w" if "toggleSeq doc (layerToggles layer) = Inl a" for a
    using that run unfolding seq processImageLayer_def
    by (auto split: sum.splits)
  have ok: "(\<exists>rest. calls w' = calls w @ WriteToFile outFile doc' # rest) \<and>
            (\<forall>d. r = Inr d \<longrightarrow> d = doc') \<and>
            (\<forall>i \<in> set (HideIDs layer) \<inter> set (ShowIDs layer).
               \<exists>k. FindElements doc' i = [k] \<and> k < length doc' \<and>
                   set (displayValues (doc' ! k)) = {''inline''})"
    if t: "toggleSeq doc (layerToggles layer) = Inr doc'" for doc'
  proof -
    from t obtain doc1 where
      h: "toggleLoop doc (HideIDs layer) True = Inr doc1" and
      s: "toggleLoop doc1 (ShowIDs layer) False = Inr doc'"
      unfolding seq by (auto split: sum.splits)
    obtain e1 w1 where wr: "doc_WriteToFile env doc' outFile w = (e1, w1)"
      by (cases "doc_WriteToFile env doc' outFile w")
    note c1 = doc_WriteToFile_calls [OF wr]
    have calls: "\<exists>rest. calls w' = calls w @ WriteToFile outFile doc' # rest"
    proof (cases e1)
      case (Some err)
      with run h s wr c1 show ?thesis
        by (auto simp: processImageLayer_def)
    next
      case None
      show ?thesis
      proof (cases "length outFile < 4")
        case True
        with None run h s wr c1 show ?thesis
          by (auto simp: processImageLayer_def)
      next
        case False
        obtain e2 w2 where rn: "cmd_Run env ''/usr/bin/flatpak''
            (inkscapeArgs (take (length outFile - 4) outFile @ ''.png'') outFile) w1 = (e2, w2)"
          by (cases "cmd_Run env ''/usr/bin/flatpak''
            (inkscapeArgs (take (length outFile - 4) outFile @ ''.png'') outFile) w1")
        note c2 = cmd_Run_calls [OF rn]
        from False None run h s wr rn have "w' = w2"
          by (auto simp: processImageLayer_def Let_def split: option.splits)
        with c1 c2 show ?thesis by simp
      qed
    qed
    have res: "\<forall>d. r = Inr d \<longrightarrow> d = doc'"
      using run h s
      by (auto simp: processImageLayer_def Let_def split: prod.splits option.splits if_splits)
    have inl: "\<exists>k. FindElements doc' i = [k] \<and> k < length doc' \<and>
                   set (displayValues (doc' ! k)) = {''inline''}"
      if "i \<in> set (HideIDs layer) \<inter> set (ShowIDs layer)" for i
    proof -
      from that have "i \<in> set (ShowIDs layer)" by simp
      from toggleLoop_unique [OF s this] obtain k where k: "FindElements doc1 i = [k]" ..
      then have "k \<in> set (FindElements doc1 i)" by simp
      then have lt: "k < length doc1" by (simp add: FindElements_mem)
      from k \<open>i \<in> set (ShowIDs layer)\<close>
      have "\<exists>i \<in> set (ShowIDs layer). FindElements doc1 i = [k]" by blast
      then have "set (displayValues (doc' ! k))
                   = {drop (length ''display:'') (expectedComponent False)}"
        using toggleLoop_touched [OF s lt] by blast
      then have "set (displayValues (doc' ! k)) = {''inline''}"
        by (simp add: expectedComponent_def)
      moreover have "FindElements doc' i = [k]"
        using toggleLoop_FindElements [OF s] k by simp
      moreover have "k < length doc'"
        using toggleLoop_length [OF s] lt by simp
      ultimately show ?thesis by blast
    qed
    from calls res inl show ?thesis by blast
  qed
  from fail ok show ?thesis by blast
qed

text \<open>
  Claim C6 at the first layer of the small run, which hides \<open>line1\<close> and \<open>line2\<close> and
  shows \<open>line1\<close>.
\<close>

theorem processImageLayer_hides_then_shows_witness:
  "toggleSeq demoDoc (layerToggles demoLayer1) =
     Inr [\<lparr>Tag = ''svg'', Attr = []\<rparr>,
          \<lparr>Tag = ''text'', Attr = [(''id'', ''line1''), (''style'', ''fill:black;display:inline'')]\<rparr>,
          \<lparr>Tag = ''text'', Attr = [(''id'', ''line2''), (''style'', '';display:none'')]\<rparr>] \<and>
   ''line1'' \<in> set (HideIDs demoLayer1) \<inter> set (ShowIDs demoLayer1) \<and>
   (\<exists>k. FindElements
          [\<lparr>Tag = ''svg'', Attr = []\<rparr>,
           \<lparr>Tag = ''text'', Attr = [(''id'', ''line1''), (''style'', ''fill:black;display:inline'')]\<rparr>,
           \<lparr>Tag = ''text'', Attr = [(''id'', ''line2''), (''style'', '';display:none'')]\<rparr>] ''line1'' = [k] \<and>
        set (displayValues
          ([\<lparr>Tag = ''svg'', Attr = []\<rparr>,
            \<lparr>Tag = ''text'', Attr = [(''id'', ''line1''), (''style'', ''fill:black;display:inline'')]\<rparr>,
            \<lparr>Tag = ''text'', Attr = [(''id'', ''line2''), (''style'', '';display:none'')]\<rparr>] ! k))
          = {''inline''})"
proof -
  have mem: "''line1'' \<in> set (HideIDs demoLayer1) \<inter> set (ShowIDs demoLayer1)"
    by (simp add: demoLayer1_def)
  from processImageLayer_hides_then_shows [where env = demoEnv and layer = demoLayer1 and doc = demoDoc
         and outFile = "''/talk/out/title_1.svg''" and w = demoWorld, OF surjective_pairing]
    demo_layer_toggles mem
  show ?thesis by blast
qed

section \<open>Paths\<close>

lemma Split_single: "sep \<notin> set e \<Longrightarrow> Split e sep = [e]"
  by (induction e) auto

lemma Split_append_no_sep:
  "sep \<notin> set e \<Longrightarrow>
   Split (X @ e) sep = butlast (Split X sep) @ [last (Split X sep) @ e]"
proof (induction X)
  case Nil
  then show ?case by (simp add: Split_single)
next
  case (Cons x xs)
  obtain w ws where sp: "Split xs sep = w # ws"
    using Split_not_Nil [of xs sep] by (cases "Split xs sep") auto
  show ?case
  proof (cases "x = sep")
    case True
    with Cons sp show ?thesis by simp
  next
    case False
    with Cons sp show ?thesis by (cases ws) auto
  qed
qed

lemma Split_snoc_sep: "Split (X @ [sep]) sep = Split X sep @ [[]]"
proof (induction X)
  case Nil
  then show ?case by simp
next
  case (Cons x xs)
  obtain w ws where sp: "Split xs sep = w # ws"
    using Split_not_Nil [of xs sep] by (cases "Split xs sep") auto
  with Cons show ?case by auto
qed

lemma cleanLoop_snoc:
  "b \<noteq> [] \<Longrightarrow> b \<noteq> ''.'' \<Longrightarrow> b \<noteq> ''..'' \<Longrightarrow>
   cleanLoop rooted out (es @ [b]) = cleanLoop rooted out es @ [b]"
  by (induction es arbitrary: out) auto

lemma Join_snoc_cases:
  "Join (cs @ [x]) sep = (if cs = [] then x else Join cs sep @ sep @ x)"
  by (simp add: Join_snoc)

lemma Clean_last_element:
  "\<exists>pre. (pre = [] \<or> last pre = CHR ''/'') \<and>
     (\<forall>e. CHR ''/'' \<notin> set e \<and> 3 \<le> length e \<longrightarrow>
          Clean (X @ e) = pre @ last (Split X CHR ''/'') @ e)"
proof -
  define rt where "rt = (X \<noteq> [] \<and> hd X = CHR ''/'')"
  define st where "st = cleanLoop rt [] (butlast (Split X CHR ''/''))"
  define pre where "pre = (if rt then ''/'' else []) @ (if st = [] then [] else Join st ''/'' @ ''/'')"
  have p: "pre = [] \<or> last pre = CHR ''/''"
    by (simp add: pre_def)
  have "Clean (X @ e) = pre @ last (Split X CHR ''/'') @ e"
    if e: "CHR ''/'' \<notin> set e" "3 \<le> length e" for e
  proof -
    let ?l = "last (Split X CHR ''/'')"
    from e have ne: "e \<noteq> []" by auto
    with e have "hd e \<noteq> CHR ''/''" by (cases e) auto
    with ne have rooted: "(hd (X @ e) = CHR ''/'') = rt"
      by (cases X) (simp_all add: rt_def)
    have real: "?l @ e \<noteq> []" "?l @ e \<noteq> ''.''" "?l @ e \<noteq> ''..''"
      using e(2) by (auto dest: arg_cong [where f = length])
    have "cleanLoop rt [] (Split (X @ e) CHR ''/'') = st @ [?l @ e]"
      unfolding st_def Split_append_no_sep [OF e(1)]
      using real by (rule cleanLoop_snoc)
    then show ?thesis
      using ne rooted by (simp add: Clean_def Let_def pre_def Join_snoc_cases)
  qed
  with p show ?thesis by blast
qed

lemma Base_last_element:
  assumes "CHR ''/'' \<notin> set b" and "b \<noteq> []" and "pre = [] \<or> last pre = CHR ''/''"
  shows "Base (pre @ b) = b"
proof -
  from assms(1,2) have hd: "hd (rev b) \<noteq> CHR ''/''"
    by (metis hd_rev last_in_set)
  with assms(2) have strip: "dropWhile (\<lambda>c. c = CHR ''/'') (rev b @ rev pre) = rev b @ rev pre"
    by (cases "rev b") auto
  have "takeWhile (\<lambda>c. c \<noteq> CHR ''/'') (rev pre) = []"
    using assms(3) by (cases "rev pre") (auto simp: last_rev [symmetric] simp del: last_rev)
  moreover have "takeWhile (\<lambda>c. c \<noteq> CHR ''/'') (rev b @ rev pre)
                   = rev b @ takeWhile (\<lambda>c. c \<noteq> CHR ''/'') (rev pre)"
    by (rule takeWhile_append2) (use assms(1) in auto)
  ultimately have "takeWhile (\<lambda>c. c \<noteq> CHR ''/'') (rev b @ rev pre) = rev b"
    by simp
  with strip assms(2) show ?thesis
    by (simp add: Base_def Let_def)
qed

lemma filepath_Join_ext:
  "\<exists>q. \<forall>e. CHR ''/'' \<notin> set e \<and> 3 \<le> length e \<longrightarrow> filepath_Join [d, b @ e] = q @ e"
proof (cases "d = []")
  case True
  from Clean_last_element [of b] obtain pre where
    "\<forall>e. CHR ''/'' \<notin> set e \<and> 3 \<le> length e \<longrightarrow> Clean (b @ e) = pre @ last (Split b CHR ''/'') @ e"
    by blast
  with True have "\<forall>e. CHR ''/'' \<notin> set e \<and> 3 \<le> length e \<longrightarrow>
      filepath_Join [d, b @ e] = (pre @ last (Split b CHR ''/'')) @ e"
    by (auto simp: filepath_Join_def split: list.splits)
  then show ?thesis by blast
next
  case False
  from Clean_last_element [of "d @ ''/'' @ b"] obtain pre where
    "\<forall>e. CHR ''/'' \<notin> set e \<and> 3 \<le> length e \<longrightarrow>
       Clean ((d @ ''/'' @ b) @ e) = pre @ last (Split (d @ ''/'' @ b) CHR ''/'') @ e"
    by blast
  with False have "\<forall>e. CHR ''/'' \<notin> set e \<and> 3 \<le> length e \<longrightarrow>
      filepath_Join [d, b @ e] = (pre @ last (Split (d @ ''/'' @ b) CHR ''/'')) @ e"
    by (auto simp: filepath_Join_def)
  then show ?thesis by blast
qed

lemma Base_filepath_Join:
  assumes "CHR ''/'' \<notin> set b" and "3 \<le> length b"
  shows "Base (filepath_Join [d, b]) = b"
proof -
  from assms have ne: "b \<noteq> []" by auto
  show ?thesis
  proof (cases "d = []")
    case True
    from Clean_last_element [of "[]"] assms obtain pre where
      "pre = [] \<or> last pre = CHR ''/''" "Clean b = pre @ b"
      by auto
    with True ne assms(1) show ?thesis
      by (simp add: filepath_Join_def Base_last_element)
  next
    case False
    have "last (Split (d @ ''/'') CHR ''/'') = []"
      using Split_snoc_sep [of d "CHR ''/''"] by simp
    with Clean_last_element [of "d @ ''/''"] assms obtain pre where
      "pre = [] \<or> last pre = CHR ''/''" "Clean ((d @ ''/'') @ b) = pre @ b"
      by auto
    with False ne assms(1) show ?thesis
      by (simp add: filepath_Join_def Base_last_element)
  qed
qed

lemma Ext_svg: "Ext (name @ ''.svg'') = ''.svg''"
  by (simp add: Ext_def)

lemma ToLower_svg: "ToLower ''.svg'' = ''.svg''"
  by (simp add: ToLower_def lowerChar_def)

section \<open>The calls of a layer and of an image\<close>

lemma processImageLayer_Inr:
  assumes "processImageLayer env layer doc outFile w = (Inr d, w')"
  shows "4 \<le> length outFile \<and>
         calls w' = calls w @
           [WriteToFile outFile d,
            Run ''/usr/bin/flatpak''
              (inkscapeArgs (take (length outFile - 4) outFile @ ''.png'') outFile)]"
proof -
  from assms obtain doc1 where h: "toggleLoop doc (HideIDs layer) True = Inr doc1"
    by (auto simp: processImageLayer_def split: sum.splits)
  with assms obtain doc2 where s: "toggleLoop doc1 (ShowIDs layer) False = Inr doc2"
    by (auto simp: processImageLayer_def split: sum.splits)
  obtain e1 w1 where wr: "doc_WriteToFile env doc2 outFile w = (e1, w1)"
    by (cases "doc_WriteToFile env doc2 outFile w")
  from assms h s wr have e1: "e1 = None" and len: "4 \<le> length outFile"
    by (auto simp: processImageLayer_def split: option.splits if_splits)
  obtain e2 w2 where rn: "cmd_Run env ''/usr/bin/flatpak''
      (inkscapeArgs (take (length outFile - 4) outFile @ ''.png'') outFile) w1 = (e2, w2)"
    by (cases "cmd_Run env ''/usr/bin/flatpak''
      (inkscapeArgs (take (length outFile - 4) outFile @ ''.png'') outFile) w1")
  from assms h s wr e1 len rn have "w' = w2" "d = doc2"
    by (auto simp: processImageLayer_def Let_def split: option.splits)
  with doc_WriteToFile_calls [OF wr] cmd_Run_calls [OF rn] len show ?thesis
    by simp
qed

lemma processImageLayer_calls:
  assumes "processImageLayer env layer doc outFile w = (r, w')"
  shows "\<exists>xs. calls w' = calls w @ xs \<and>
           (\<forall>c \<in> set xs. (\<exists>p d. c = WriteToFile p d) \<or> (\<exists>p a. c = Run p a))"
proof (cases "toggleSeq doc (layerToggles layer)")
  case (Inl a)
  have seq: "toggleSeq doc (layerToggles layer) =
               (case toggleLoop doc (HideIDs layer) True of
                  Inl a \<Rightarrow> Inl a
                | Inr doc1 \<Rightarrow> toggleLoop doc1 (ShowIDs layer) False)"
    by (simp add: layerToggles_def toggleSeq_append toggleLoop_toggleSeq split: sum.splits)
  from Inl assms have "w' = w"
    unfolding seq processImageLayer_def by (auto split: sum.splits)
  then show ?thesis by simp
next
  case (Inr doc')
  have seq: "toggleSeq doc (layerToggles layer) =
               (case toggleLoop doc (HideIDs layer) True of
                  Inl a \<Rightarrow> Inl a
                | Inr doc1 \<Rightarrow> toggleLoop doc1 (ShowIDs layer) False)"
    by (simp add: layerToggles_def toggleSeq_append toggleLoop_toggleSeq split: sum.splits)
  from Inr obtain doc1 where
    h: "toggleLoop doc (HideIDs layer) True = Inr doc1" and
    s: "toggleLoop doc1 (ShowIDs layer) False = Inr doc'"
    unfolding seq by (auto split: sum.splits)
  obtain e1 w1 where wr: "doc_WriteToFile env doc' outFile w = (e1, w1)"
    by (cases "doc_WriteToFile env doc' outFile w")
  note c1 = doc_WriteToFile_calls [OF wr]
  show ?thesis
  proof (cases "e1 = None \<and> 4 \<le> length outFile")
    case False
    with assms h s wr have "w' = w1"
      by (auto simp: processImageLayer_def split: option.splits)
    with c1 show ?thesis by simp
  next
    case True
    obtain e2 w2 where rn: "cmd_Run env ''/usr/bin/flatpak''
        (inkscapeArgs (take (length outFile - 4) outFile @ ''.png'') outFile) w1 = (e2, w2)"
      by (cases "cmd_Run env ''/usr/bin/flatpak''
        (inkscapeArgs (take (length outFile - 4) outFile @ ''.png'') outFile) w1")
    from True assms h s wr rn have "w' = w2"
      by (auto simp: processImageLayer_def Let_def split: option.splits)
    with c1 cmd_Run_calls [OF rn] show ?thesis by simp
  qed
qed

lemma layersLoop_calls:
  "layersLoop env layers doc outPrefix outExt outDir w = (r, w') \<Longrightarrow>
   \<exists>xs. calls w' = calls w @ xs \<and>
        (\<forall>c \<in> set xs. (\<exists>p d. c = WriteToFile p d) \<or> (\<exists>p a. c = Run p a))"
proof (induction layers arbitrary: doc w)
  case Nil
  then show ?case by simp
next
  case (Cons layer layers)
  let ?outFile = "filepath_Join [outDir, outPrefix @ Suffix layer @ outExt]"
  obtain r1 w1 where p: "processImageLayer env layer doc ?outFile w = (r1, w1)"
    by (cases "processImageLayer env layer doc ?outFile w")
  from processImageLayer_calls [OF p] obtain xs where
    xs: "calls w1 = calls w @ xs"
        "\<forall>c \<in> set xs. (\<exists>p d. c = WriteToFile p d) \<or> (\<exists>p a. c = Run p a)"
    by blast
  show ?case
  proof (cases r1)
    case (Inl a)
    with Cons.prems p have "w' = w1" by (simp add: Let_def)
    with xs show ?thesis by blast
  next
    case (Inr doc1)
    with Cons.prems p
    have "layersLoop env layers doc1 outPrefix outExt outDir w1 = (r, w')"
      by (simp add: Let_def)
    from Cons.IH [OF this] obtain ys where
      ys: "calls w' = calls w1 @ ys"
          "\<forall>c \<in> set ys. (\<exists>p d. c = WriteToFile p d) \<or> (\<exists>p a. c = Run p a)"
      by blast
    from xs ys have "calls w' = calls w @ (xs @ ys)"
      "\<forall>c \<in> set (xs @ ys). (\<exists>p d. c = WriteToFile p d) \<or> (\<exists>p a. c = Run p a)"
      by auto
    then show ?thesis by blast
  qed
qed

lemma layersLoop_success:
  "layersLoop env layers doc name ''.svg'' outDir w = (None, w') \<Longrightarrow>
   \<exists>docs. length docs = length layers \<and>
     calls w' = calls w @ concat (map (\<lambda>(layer, d).
        [WriteToFile (filepath_Join [outDir, name @ Suffix layer @ ''.svg'']) d,
         Run ''/usr/bin/flatpak''
           (inkscapeArgs (filepath_Join [outDir, name @ Suffix layer @ ''.png''])
                         (filepath_Join [outDir, name @ Suffix layer @ ''.svg'']))])
        (zip layers docs))"
proof (induction layers arbitrary: doc w)
  case Nil
  then show ?case by simp
next
  case (Cons layer layers)
  let ?outFile = "filepath_Join [outDir, name @ Suffix layer @ ''.svg'']"
  obtain r1 w1 where p: "processImageLayer env layer doc ?outFile w = (r1, w1)"
    by (cases "processImageLayer env layer doc ?outFile w")
  with Cons.prems obtain doc1 where r1: "r1 = Inr doc1"
    by (cases r1) (auto simp: Let_def)
  with Cons.prems p
  have rest: "layersLoop env layers doc1 name ''.svg'' outDir w1 = (None, w')"
    by (simp add: Let_def)
  from filepath_Join_ext [of outDir "name @ Suffix layer"] obtain q where
    q: "\<forall>e. CHR ''/'' \<notin> set e \<and> 3 \<le> length e \<longrightarrow>
          filepath_Join [outDir, (name @ Suffix layer) @ e] = q @ e"
    by blast
  from q have svg: "?outFile = q @ ''.svg''" by simp
  from q have png: "filepath_Join [outDir, name @ Suffix layer @ ''.png''] = q @ ''.png''"
    by simp
  from svg png have outPng:
    "take (length ?outFile - 4) ?outFile @ ''.png''
       = filepath_Join [outDir, name @ Suffix layer @ ''.png'']"
    by simp
  from processImageLayer_Inr [OF p [unfolded r1]]
  have c1: "calls w1 = calls w @
      [WriteToFile ?outFile doc1,
       Run ''/usr/bin/flatpak''
         (inkscapeArgs (filepath_Join [outDir, name @ Suffix layer @ ''.png'']) ?outFile)]"
    by (simp only: outPng)
  from Cons.IH [OF rest] obtain docs where
    docs: "length docs = length layers"
      "calls w' = calls w1 @ concat (map (\<lambda>(layer, d).
        [WriteToFile (filepath_Join [outDir, name @ Suffix layer @ ''.svg'']) d,
         Run ''/usr/bin/flatpak''
           (inkscapeArgs (filepath_Join [outDir, name @ Suffix layer @ ''.png''])
                         (filepath_Join [outDir, name @ Suffix layer @ ''.svg'']))])
        (zip layers docs))"
    by blast
  have "length (doc1 # docs) = length (layer # layers)"
    using docs(1) by simp
  moreover have "calls w' = calls w @ concat (map (\<lambda>(layer, d).
        [WriteToFile (filepath_Join [outDir, name @ Suffix layer @ ''.svg'']) d,
         Run ''/usr/bin/flatpak''
           (inkscapeArgs (filepath_Join [outDir, name @ Suffix layer @ ''.png''])
                         (filepath_Join [outDir, name @ Suffix layer @ ''.svg'']))])
        (zip (layer # layers) (doc1 # docs)))"
    using docs(2) c1 by simp
  ultimately show ?case by blast
qed

lemma processImage_unfold:
  "processImage env img inDir outDir w =
     (let inFile = filepath_Join [inDir, Filename img];
          w1 = record_call (Stat inFile) w
      in case files w inFile of
           None \<Rightarrow> (Some (Fatal (''Source file needs to exist: '' @ inFile @ newline)), w1)
         | Some Directory \<Rightarrow>
             (Some (Fatal (''Input file '' @ inFile @ '' is not regular file'' @ newline)), w1)
         | Some (File reg bytes) \<Rightarrow>
             if \<not> reg
             then (Some (Fatal (''Input file '' @ inFile @ '' is not regular file'' @ newline)), w1)
             else if ToLower (Ext (Base inFile)) \<noteq> ''.svg''
             then (Some (Fatal (''Expected .svg file but got '' @ inFile @ newline)), w1)
             else (case doc_ReadFromFile env inFile w1 of
                     (Inl err, w2) \<Rightarrow>
                       (Some (Fatal (''Error reading SVG XML file: '' @ err @ newline)), w2)
                   | (Inr doc, w2) \<Rightarrow>
                       layersLoop env (Layers img) doc
                         (take (length (Base inFile) - length (Ext (Base inFile))) (Base inFile))
                         (Ext (Base inFile)) outDir w2))"
  by (simp add: processImage_def os_Stat_def Let_def split: option.splits fsnode.splits)

lemma doc_ReadFromFile_calls:
  "doc_ReadFromFile env path w = (r, w1) \<Longrightarrow> calls w1 = calls w @ [ReadFromFile path]"
  by (auto simp: doc_ReadFromFile_def record_call_def)


section \<open>Output files: claims\<close>

text \<open>
  Claim C7: for an image whose source file name is \<open>name.svg\<close> (a base name, without
  directory), when \<open>processImage\<close> completes, the calls it has made are: the two reads of
  the source, and for every layer, in order, one write of the document to
  \<open>outputDir/name{S}.svg\<close> followed by one run of the rasterizer, whose export file is
  \<open>outputDir/name{S}.png\<close>, whose width and height are 1280 and 720 and whose input is the
  file written. Here \<open>outputDir/x\<close> is \<open>filepath.Join(outputDir, x)\<close>, as the program
  computes it; the raster path, computed by cutting four characters, is the join of the
  directory with \<open>name{S}.png\<close>.
\<close>

theorem processImage_output_files:
  assumes fname: "Filename img = name @ ''.svg''" and noslash: "CHR ''/'' \<notin> set name"
      and run: "processImage env img inDir outDir w = (None, w')"
  shows "\<exists>docs. length docs = length (Layers img) \<and>
     calls w' = calls w @
       [Stat (filepath_Join [inDir, Filename img]),
        ReadFromFile (filepath_Join [inDir, Filename img])] @
       concat (map (\<lambda>(layer, d).
        [WriteToFile (filepath_Join [outDir, name @ Suffix layer @ ''.svg'']) d,
         Run ''/usr/bin/flatpak''
           [''flatpak'', ''run'', ''org.inkscape.Inkscape'',
            ''--export-filename='' @ filepath_Join [outDir, name @ Suffix layer @ ''.png''],
            ''--export-width=1280'', ''--export-height=720'',
            filepath_Join [outDir, name @ Suffix layer @ ''.svg'']]])
        (zip (Layers img) docs))"
proof -
  let ?inFile = "filepath_Join [inDir, Filename img]"
  have base: "Base ?inFile = name @ ''.svg''"
    unfolding fname using noslash by (intro Base_filepath_Join) simp_all
  have ext: "Ext (Base ?inFile) = ''.svg''"
    by (simp only: base Ext_svg)
  have stem: "take (length (Base ?inFile) - length ''.svg'') (Base ?inFile) = name"
    by (simp add: base)
  obtain r2 w2 where rd: "doc_ReadFromFile env ?inFile (record_call (Stat ?inFile) w) = (r2, w2)"
    by (cases "doc_ReadFromFile env ?inFile (record_call (Stat ?inFile) w)")
  from run obtain doc where r2: "r2 = Inr doc" and
    loop: "layersLoop env (Layers img) doc name ''.svg'' outDir w2 = (None, w')"
    unfolding processImage_unfold Let_def ext stem ToLower_svg rd
    by (cases r2) (auto split: option.splits fsnode.splits if_splits)
  from doc_ReadFromFile_calls [OF rd]
  have c2: "calls w2 = calls w @ [Stat ?inFile, ReadFromFile ?inFile]"
    by (simp add: record_call_def)
  from layersLoop_success [OF loop] c2 show ?thesis
    by (simp add: inkscapeArgs_def)
qed

text \<open>
  Claim C7 at the first image of the small run, with its layers \<open>_1\<close> and \<open>_2\<close>.
\<close>

theorem processImage_output_files_witness:
  "Filename (demoImages ! 0) = ''title'' @ ''.svg'' \<and> CHR ''/'' \<notin> set ''title'' \<and>
   fst (processImage demoEnv (demoImages ! 0) ''/talk'' ''/talk/out'' demoWorld) = None \<and>
   (\<exists>d1 d2. calls (snd (processImage demoEnv (demoImages ! 0) ''/talk'' ''/talk/out'' demoWorld)) =
      [Stat ''/talk/title.svg'', ReadFromFile ''/talk/title.svg'',
       WriteToFile ''/talk/out/title_1.svg'' d1,
       Run ''/usr/bin/flatpak''
         [''flatpak'', ''run'', ''org.inkscape.Inkscape'',
          ''--export-filename=/talk/out/title_1.png'',
          ''--export-width=1280'', ''--export-height=720'', ''/talk/out/title_1.svg''],
       WriteToFile ''/talk/out/title_2.svg'' d2,
       Run ''/usr/bin/flatpak''
         [''flatpak'', ''run'', ''org.inkscape.Inkscape'',
          ''--export-filename=/talk/out/title_2.png'',
          ''--export-width=1280'', ''--export-height=720'', ''/talk/out/title_2.svg'']])"
proof -
  let ?img = "demoImages ! 0"
  let ?run = "processImage demoEnv ?img ''/talk'' ''/talk/out'' demoWorld"
  have fname: "Filename ?img = ''title'' @ ''.svg''"
    by (simp add: demoImages_def)
  have noslash: "CHR ''/'' \<notin> set ''title''"
    by simp
  have none: "fst ?run = None"
    by code_simp
  then have run: "?run = (None, snd ?run)"
    by (metis prod.collapse)
  have layers: "Layers ?img = [demoLayer1, demoLayer2]"
    by (simp add: demoImages_def)
  have paths:
    "filepath_Join [''/talk'', Filename ?img] = ''/talk/title.svg''"
    "filepath_Join [''/talk/out'', ''title'' @ Suffix demoLayer1 @ ''.svg''] = ''/talk/out/title_1.svg''"
    "filepath_Join [''/talk/out'', ''title'' @ Suffix demoLayer1 @ ''.png''] = ''/talk/out/title_1.png''"
    "filepath_Join [''/talk/out'', ''title'' @ Suffix demoLayer2 @ ''.svg''] = ''/talk/out/title_2.svg''"
    "filepath_Join [''/talk/out'', ''title'' @ Suffix demoLayer2 @ ''.png''] = ''/talk/out/title_2.png''"
    by code_simp+
  have empty: "calls demoWorld = []"
    by (simp add: demoWorld_def)
  from processImage_output_files [OF fname noslash run] obtain docs where
    docs: "length docs = length (Layers ?img)" and
    calls: "calls (snd ?run) = calls demoWorld @
       [Stat (filepath_Join [''/talk'', Filename ?img]),
        ReadFromFile (filepath_Join [''/talk'', Filename ?img])] @
       concat (map (\<lambda>(layer, d).
        [WriteToFile (filepath_Join [''/talk/out'', ''title'' @ Suffix layer @ ''.svg'']) d,
         Run ''/usr/bin/flatpak''
           [''flatpak'', ''run'', ''org.inkscape.Inkscape'',
            ''--export-filename='' @ filepath_Join [''/talk/out'', ''title'' @ Suffix layer @ ''.png''],
            ''--export-width=1280'', ''--export-height=720'',
            filepath_Join [''/talk/out'', ''title'' @ Suffix layer @ ''.svg'']]])
        (zip (Layers ?img) docs))"
    by blast
  from docs layers obtain d1 d2 where d: "docs = [d1, d2]"
    by (cases docs; cases "tl docs") auto
  from calls [unfolded layers d zip_Cons_Cons zip_Nil list.map prod.case paths]
  have "calls (snd ?run) =
      [Stat ''/talk/title.svg'', ReadFromFile ''/talk/title.svg'',
       WriteToFile ''/talk/out/title_1.svg'' d1,
       Run ''/usr/bin/flatpak''
         [''flatpak'', ''run'', ''org.inkscape.Inkscape'',
          ''--export-filename=/talk/out/title_1.png'',
          ''--export-width=1280'', ''--export-height=720'', ''/talk/out/title_1.svg''],
       WriteToFile ''/talk/out/title_2.svg'' d2,
       Run ''/usr/bin/flatpak''
         [''flatpak'', ''run'', ''org.inkscape.Inkscape'',
          ''--export-filename=/talk/out/title_2.png'',
          ''--export-width=1280'', ''--export-height=720'', ''/talk/out/title_2.svg'']]"
    by (simp add: empty)
  with fname noslash none show ?thesis by blast
qed

text \<open>
  Claim C8 as written fails for a run: in the small run the second image names a source
  file that does not exist, the run stops with the fatal message for it, and by then the
  two output files of the first image have been written.
\<close>

theorem main_missing_source_counterexample:
  "filepath_Join [Dir ''/talk/slides.yaml'', Filename (demoImages ! 1)] = ''/talk/missing.svg'' \<and>
   files demoWorld ''/talk/missing.svg'' = None \<and>
   fst (main demoEnv [''bulletpointer'', ''/talk/slides.yaml'', ''/talk/out''] demoWorld)
     = Some (Fatal ''Source file needs to exist: /talk/missing.svg\<newline>'') \<and>
   [p. WriteToFile p d \<leftarrow> calls (snd (main demoEnv [''bulletpointer'', ''/talk/slides.yaml'', ''/talk/out''] demoWorld))]
     = [''/talk/out/title_1.svg'', ''/talk/out/title_2.svg''] \<and>
   files demoWorld ''/talk/out/title_1.svg'' = None \<and>
   files (snd (main demoEnv [''bulletpointer'', ''/talk/slides.yaml'', ''/talk/out''] demoWorld))
     ''/talk/out/title_1.svg'' = Some (File True ''<svg/>'')"
  by code_simp

text \<open>
  Claim C8, amended: when the source file of an image does not exist, is not a regular
  file, or has no extension \<open>.svg\<close> (in any case of the letters) at the time the image is
  reached, \<open>processImage\<close> stops the program with a fatal message and has done nothing
  but look the source up: no file is written and the rasterizer is not run for this image,
  nor for the images after it. The output files of the images before it stay written.
\<close>

theorem processImage_bad_source_writes_nothing:
  assumes "files w (filepath_Join [inDir, Filename img]) = None
           \<or> files w (filepath_Join [inDir, Filename img]) = Some Directory
           \<or> (\<exists>bytes. files w (filepath_Join [inDir, Filename img]) = Some (File False bytes))
           \<or> ToLower (Ext (Base (filepath_Join [inDir, Filename img]))) \<noteq> ''.svg''"
  shows "\<exists>msg. processImage env img inDir outDir w =
           (Some (Fatal msg), w\<lparr>calls := calls w @ [Stat (filepath_Join [inDir, Filename img])]\<rparr>) \<and>
         imagesLoop env (img # later) inDir outDir w =
           (Some (Fatal msg), w\<lparr>calls := calls w @ [Stat (filepath_Join [inDir, Filename img])]\<rparr>)"
proof -
  from assms have "\<exists>msg. processImage env img inDir outDir w =
           (Some (Fatal msg), w\<lparr>calls := calls w @ [Stat (filepath_Join [inDir, Filename img])]\<rparr>)"
    unfolding processImage_unfold Let_def record_call_def
    by (auto split: option.splits fsnode.splits)
  then show ?thesis by auto
qed

text \<open>
  The amended claim C8 at the second image of the small run, whose source is missing.
\<close>

theorem processImage_bad_source_writes_nothing_witness:
  "files demoWorld (filepath_Join [''/talk'', Filename (demoImages ! 1)]) = None \<and>
   processImage demoEnv (demoImages ! 1) ''/talk'' ''/talk/out'' demoWorld =
     (Some (Fatal ''Source file needs to exist: /talk/missing.svg\<newline>''),
      demoWorld\<lparr>calls := [Stat ''/talk/missing.svg'']\<rparr>)"
proof -
  have miss: "files demoWorld (filepath_Join [''/talk'', Filename (demoImages ! 1)]) = None"
    by code_simp
  have path: "filepath_Join [''/talk'', Filename (demoImages ! 1)] = ''/talk/missing.svg''"
    by code_simp
  have res: "fst (processImage demoEnv (demoImages ! 1) ''/talk'' ''/talk/out'' demoWorld)
               = Some (Fatal ''Source file needs to exist: /talk/missing.svg\<newline>'')"
    by code_simp
  have empty: "calls demoWorld = []"
    by (simp add: demoWorld_def)
  from miss have "files demoWorld (filepath_Join [''/talk'', Filename (demoImages ! 1)]) = None
           \<or> files demoWorld (filepath_Join [''/talk'', Filename (demoImages ! 1)]) = Some Directory
           \<or> (\<exists>bytes. files demoWorld (filepath_Join [''/talk'', Filename (demoImages ! 1)]) = Some (File False bytes))
           \<or> ToLower (Ext (Base (filepath_Join [''/talk'', Filename (demoImages ! 1)]))) \<noteq> ''.svg''"
    by simp
  from processImage_bad_source_writes_nothing [OF this, of demoEnv "''/talk/out''" "[]"] res
  have "processImage demoEnv (demoImages ! 1) ''/talk'' ''/talk/out'' demoWorld =
     (Some (Fatal ''Source file needs to exist: /talk/missing.svg\<newline>''),
      demoWorld\<lparr>calls := calls demoWorld @ [Stat (filepath_Join [''/talk'', Filename (demoImages ! 1)])]\<rparr>)"
    by auto
  with miss show ?thesis
    by (simp only: path empty append_Nil simp_thms)
qed

section \<open>The calls of a run\<close>

lemma processImage_calls:
  assumes "processImage env img inDir outDir w = (r, w')"
  shows "\<exists>xs. calls w' = calls w @ Stat (filepath_Join [inDir, Filename img]) # xs \<and>
           (\<forall>c \<in> set xs. c = ReadFromFile (filepath_Join [inDir, Filename img])
                \<or> (\<exists>p d. c = WriteToFile p d) \<or> (\<exists>p a. c = Run p a)) \<and>
           (r = None \<longrightarrow> ReadFromFile (filepath_Join [inDir, Filename img]) \<in> set xs)"
proof -
  let ?inFile = "filepath_Join [inDir, Filename img]"
  let ?w1 = "record_call (Stat ?inFile) w"
  let ?good = "(\<exists>bytes. files w ?inFile = Some (File True bytes))
                 \<and> ToLower (Ext (Base ?inFile)) = ''.svg''"
  show ?thesis
  proof (cases ?good)
    case False
    with assms have "w' = ?w1 \<and> r \<noteq> None"
      unfolding processImage_unfold Let_def
      by (auto split: option.splits fsnode.splits if_splits)
    then show ?thesis by (simp add: record_call_def)
  next
    case True
    obtain r2 w2 where rd: "doc_ReadFromFile env ?inFile ?w1 = (r2, w2)"
      by (cases "doc_ReadFromFile env ?inFile ?w1")
    from doc_ReadFromFile_calls [OF rd]
    have c2: "calls w2 = calls w @ [Stat ?inFile, ReadFromFile ?inFile]"
      by (simp add: record_call_def)
    show ?thesis
    proof (cases r2)
      case (Inl err)
      with True assms rd have "w' = w2"
        unfolding processImage_unfold Let_def by auto
      with c2 show ?thesis by simp
    next
      case (Inr doc)
      with True assms rd have "layersLoop env (Layers img) doc
             (take (length (Base ?inFile) - length (Ext (Base ?inFile))) (Base ?inFile))
             (Ext (Base ?inFile)) outDir w2 = (r, w')"
        unfolding processImage_unfold Let_def by auto
      from layersLoop_calls [OF this] obtain ys where
        "calls w' = calls w2 @ ys"
        "\<forall>c \<in> set ys. (\<exists>p d. c = WriteToFile p d) \<or> (\<exists>p a. c = Run p a)"
        by blast
      with c2 have "calls w' = calls w @ Stat ?inFile # (ReadFromFile ?inFile # ys)"
        "\<forall>c \<in> set (ReadFromFile ?inFile # ys). c = ReadFromFile ?inFile
            \<or> (\<exists>p d. c = WriteToFile p d) \<or> (\<exists>p a. c = Run p a)"
        "ReadFromFile ?inFile \<in> set (ReadFromFile ?inFile # ys)"
        by auto
      then show ?thesis by blast
    qed
  qed
qed

lemma imagesLoop_calls:
  "imagesLoop env imgs inDir outDir w = (r, w') \<Longrightarrow>
   \<exists>xs. calls w' = calls w @ xs \<and>
     (\<forall>p. Stat p \<in> set xs \<or> ReadFromFile p \<in> set xs \<longrightarrow>
          (\<exists>img \<in> set imgs. p = filepath_Join [inDir, Filename img])) \<and>
     (r = None \<longrightarrow>
        (\<forall>img \<in> set imgs. Stat (filepath_Join [inDir, Filename img]) \<in> set xs \<and>
                           ReadFromFile (filepath_Join [inDir, Filename img]) \<in> set xs))"
proof (induction imgs arbitrary: w)
  case Nil
  then show ?case by simp
next
  case (Cons img imgs)
  let ?inFile = "filepath_Join [inDir, Filename img]"
  obtain r1 w1 where p: "processImage env img inDir outDir w = (r1, w1)"
    by (cases "processImage env img inDir outDir w")
  from processImage_calls [OF p] obtain xs where
    xs: "calls w1 = calls w @ Stat ?inFile # xs"
        "\<forall>c \<in> set xs. c = ReadFromFile ?inFile
            \<or> (\<exists>p d. c = WriteToFile p d) \<or> (\<exists>p a. c = Run p a)"
        "r1 = None \<longrightarrow> ReadFromFile ?inFile \<in> set xs"
    by blast
  from xs(2) have src: "\<forall>p. Stat p \<in> set (Stat ?inFile # xs) \<or> ReadFromFile p \<in> set (Stat ?inFile # xs)
                          \<longrightarrow> p = ?inFile"
    by auto
  show ?case
  proof (cases r1)
    case (Some a)
    with Cons.prems p have "w' = w1" "r \<noteq> None" by auto
    with xs(1) src show ?thesis by auto
  next
    case None
    with Cons.prems p have "imagesLoop env imgs inDir outDir w1 = (r, w')" by simp
    from Cons.IH [OF this] obtain ys where
      ys: "calls w' = calls w1 @ ys"
          "\<forall>p. Stat p \<in> set ys \<or> ReadFromFile p \<in> set ys \<longrightarrow>
               (\<exists>img \<in> set imgs. p = filepath_Join [inDir, Filename img])"
          "r = None \<longrightarrow>
             (\<forall>img \<in> set imgs. Stat (filepath_Join [inDir, Filename img]) \<in> set ys \<and>
                                ReadFromFile (filepath_Join [inDir, Filename img]) \<in> set ys)"
      by blast
    let ?zs = "(Stat ?inFile # xs) @ ys"
    have 1: "calls w' = calls w @ ?zs"
      using xs(1) ys(1) by simp
    have 2: "\<forall>p. Stat p \<in> set ?zs \<or> ReadFromFile p \<in> set ?zs \<longrightarrow>
               (\<exists>i \<in> set (img # imgs). p = filepath_Join [inDir, Filename i])"
      using src ys(2) by auto
    have 3: "r = None \<longrightarrow>
             (\<forall>i \<in> set (img # imgs). Stat (filepath_Join [inDir, Filename i]) \<in> set ?zs \<and>
                                ReadFromFile (filepath_Join [inDir, Filename i]) \<in> set ?zs)"
      using None xs(3) ys(3) by auto
    from 1 2 3 show ?thesis by blast
  qed
qed

section \<open>Source paths: claims\<close>

text \<open>
  Claim C9: in every run, the paths at which \<open>main\<close> looks up and reads image sources
  (all its calls of \<open>os.Stat\<close> after the first, which is for the output directory, and
  all its calls of \<open>ReadFromFile\<close>) are \<open>filepath.Join(filepath.Dir(config), filename)\<close> for
  an image of the configuration; and in a run that completes, this path has been looked
  up and read for every image of the configuration. The output directory and the working
  directory do not enter the path.
\<close>

theorem main_resolves_sources_beside_config:
  assumes run: "main env Args w = (r, w')" and args: "length Args = 3"
  shows "\<exists>ys. calls w' = calls w @ Stat (Args ! 2) # ys \<and>
     (\<forall>p. Stat p \<in> set ys \<or> ReadFromFile p \<in> set ys \<longrightarrow>
        (\<exists>reg yamlBytes yamlImages img.
            files w (Args ! 1) = Some (File reg yamlBytes) \<and>
            Unmarshal env yamlBytes = Inr yamlImages \<and> img \<in> set yamlImages \<and>
            p = filepath_Join [Dir (Args ! 1), Filename img])) \<and>
     (r = None \<longrightarrow>
        (\<exists>reg yamlBytes yamlImages.
            files w (Args ! 1) = Some (File reg yamlBytes) \<and>
            Unmarshal env yamlBytes = Inr yamlImages \<and>
            (\<forall>img \<in> set yamlImages.
               Stat (filepath_Join [Dir (Args ! 1), Filename img]) \<in> set ys \<and>
               ReadFromFile (filepath_Join [Dir (Args ! 1), Filename img]) \<in> set ys)))"
proof -
  let ?w1 = "record_call (Stat (Args ! 2)) w"
  let ?w2 = "record_call (ReadFile (Args ! 1)) ?w1"
  let ?decoded = "\<exists>reg yamlBytes yamlImages. files w (Args ! 1) = Some (File reg yamlBytes) \<and>
                    Unmarshal env yamlBytes = Inr yamlImages"
  show ?thesis
  proof (cases "files w (Args ! 2) = Some Directory \<and> ?decoded")
    case False
    with run args have "(w' = ?w1 \<or> w' = ?w2) \<and> r \<noteq> None"
      unfolding main_def os_Stat_def os_ReadFile_def
      by (auto simp: record_call_def split: option.splits fsnode.splits sum.splits if_splits)
    then have "(calls w' = calls w @ Stat (Args ! 2) # [] \<or>
                calls w' = calls w @ Stat (Args ! 2) # [ReadFile (Args ! 1)]) \<and> r \<noteq> None"
      by (auto simp: record_call_def)
    then show ?thesis by auto
  next
    case True
    then obtain reg yamlBytes yamlImages where
      cfg: "files w (Args ! 1) = Some (File reg yamlBytes)"
           "Unmarshal env yamlBytes = Inr yamlImages"
      by blast
    with True run args
    have "imagesLoop env yamlImages (Dir (Args ! 1)) (Args ! 2) ?w2 = (r, w')"
      unfolding main_def os_Stat_def os_ReadFile_def
      by (simp add: record_call_def)
    from imagesLoop_calls [OF this] obtain xs where
      xs: "calls w' = calls ?w2 @ xs"
          "\<forall>p. Stat p \<in> set xs \<or> ReadFromFile p \<in> set xs \<longrightarrow>
               (\<exists>img \<in> set yamlImages. p = filepath_Join [Dir (Args ! 1), Filename img])"
          "r = None \<longrightarrow>
             (\<forall>img \<in> set yamlImages.
                Stat (filepath_Join [Dir (Args ! 1), Filename img]) \<in> set xs \<and>
                ReadFromFile (filepath_Join [Dir (Args ! 1), Filename img]) \<in> set xs)"
      by blast
    let ?ys = "ReadFile (Args ! 1) # xs"
    have 1: "calls w' = calls w @ Stat (Args ! 2) # ?ys"
      using xs(1) by (simp add: record_call_def)
    have 2: "\<forall>p. Stat p \<in> set ?ys \<or> ReadFromFile p \<in> set ?ys \<longrightarrow>
        (\<exists>reg yamlBytes yamlImages img.
            files w (Args ! 1) = Some (File reg yamlBytes) \<and>
            Unmarshal env yamlBytes = Inr yamlImages \<and> img \<in> set yamlImages \<and>
            p = filepath_Join [Dir (Args ! 1), Filename img])"
      using xs(2) cfg by auto
    have 3: "r = None \<longrightarrow>
        (\<exists>reg yamlBytes yamlImages.
            files w (Args ! 1) = Some (File reg yamlBytes) \<and>
            Unmarshal env yamlBytes = Inr yamlImages \<and>
            (\<forall>img \<in> set yamlImages.
               Stat (filepath_Join [Dir (Args ! 1), Filename img]) \<in> set ?ys \<and>
               ReadFromFile (filepath_Join [Dir (Args ! 1), Filename img]) \<in> set ?ys))"
      using xs(3) cfg by auto
    from 1 2 3 show ?thesis by blast
  qed
qed

text \<open>
  Claim C9 at a run that completes: the small run with a configuration of the first image
  only.
\<close>

theorem main_resolves_sources_beside_config_witness:
  "fst (main (demoEnv\<lparr>Unmarshal := \<lambda>bytes. Inr [demoImages ! 0]\<rparr>)
          [''bulletpointer'', ''/talk/slides.yaml'', ''/talk/out''] demoWorld) = None \<and>
   length [''bulletpointer'', ''/talk/slides.yaml'', ''/talk/out''] = 3 \<and>
   filepath_Join [Dir ''/talk/slides.yaml'', Filename (demoImages ! 0)] = ''/talk/title.svg'' \<and>
   Stat ''/talk/title.svg'' \<in> set (calls (snd (main (demoEnv\<lparr>Unmarshal := \<lambda>bytes. Inr [demoImages ! 0]\<rparr>)
          [''bulletpointer'', ''/talk/slides.yaml'', ''/talk/out''] demoWorld))) \<and>
   ReadFromFile ''/talk/title.svg'' \<in> set (calls (snd (main (demoEnv\<lparr>Unmarshal := \<lambda>bytes. Inr [demoImages ! 0]\<rparr>)
          [''bulletpointer'', ''/talk/slides.yaml'', ''/talk/out''] demoWorld)))"
proof -
  let ?env = "demoEnv\<lparr>Unmarshal := \<lambda>bytes. Inr [demoImages ! 0]\<rparr>"
  let ?Args = "[''bulletpointer'', ''/talk/slides.yaml'', ''/talk/out'']"
  let ?run = "main ?env ?Args demoWorld"
  have none: "fst ?run = None"
    by code_simp
  then have run: "?run = (None, snd ?run)"
    by (metis prod.collapse)
  have args: "length ?Args = 3"
    by simp
  have path: "filepath_Join [Dir ''/talk/slides.yaml'', Filename (demoImages ! 0)] = ''/talk/title.svg''"
    by code_simp
  from main_resolves_sources_beside_config [OF run args] obtain ys yamlBytes yamlImages where
    ys: "calls (snd ?run) = calls demoWorld @ Stat (?Args ! 2) # ys" and
    cfg: "Unmarshal ?env yamlBytes = Inr yamlImages" and
    all: "\<forall>img \<in> set yamlImages.
               Stat (filepath_Join [Dir (?Args ! 1), Filename img]) \<in> set ys \<and>
               ReadFromFile (filepath_Join [Dir (?Args ! 1), Filename img]) \<in> set ys"
    by blast
  from cfg have "yamlImages = [demoImages ! 0]"
    by simp
  with all path have "Stat ''/talk/title.svg'' \<in> set ys \<and> ReadFromFile ''/talk/title.svg'' \<in> set ys"
    by simp
  with ys none args path show ?thesis
    by simp
qed

end
